theory Spec2Isabelle
  imports Main "HOL-Library.AList"
begin

section \<open>Values of the data pipeline\<close>

text \<open>
  The functions of \<^verbatim>\<open>flash/data/batch.py\<close> take and return arbitrary Python
  objects and dispatch on their run-time class. The embedding fixes the classes that
  \<^verbatim>\<open>default_uncollate\<close> distinguishes: tensors, mappings (\<^verbatim>\<open>dict\<close>,
  \<^verbatim>\<open>OrderedDict\<close>), namedtuples, the plain sequences \<^verbatim>\<open>tuple\<close> and
  \<^verbatim>\<open>list\<close>, strings, and two classes that are none of these (\<^verbatim>\<open>int\<close>,
  \<^verbatim>\<open>None\<close>).

  A tensor is its shape together with its elements in row-major order; the element type is
  a parameter. A mapping keeps its items in insertion order, as Python dictionaries do.
  Strings are lists of 8-bit characters, so the model of iterating a string agrees with
  Python on ASCII text.
\<close>

datatype 'a tensor = Tensor (shape: "nat list") (data: "'a list")

datatype mapping_type = Dict | OrderedDict

datatype pykey = KStr string | KInt int

datatype 'a pyval =
    PTensor "'a tensor"
  | PMapping mapping_type "(pykey \<times> 'a pyval) list"
  | PNamedTuple string "'a pyval list"
  | PTuple "'a pyval list"
  | PList "'a pyval list"
  | PStr string
  | PInt int
  | PNone

text \<open>
  Exceptions are values. \<open>TorchError\<close> is the error \<^verbatim>\<open>torch.unbind\<close> and
  \<^verbatim>\<open>torch.stack\<close> raise on an argument they reject; \<open>TypeError\<close> is
  Python's own (iterating a non-iterable, a constructor called with the wrong number of
  arguments).
\<close>

datatype pyerror = MisconfigurationException | TypeError | TorchError

type_synonym 'r result = "pyerror + 'r"

text \<open>A list comprehension whose element expression may raise: the first exception wins.\<close>

fun sequence_res :: "'r result list \<Rightarrow> 'r list result" where
  "sequence_res [] = Inr []"
| "sequence_res (r # rs) =
     (case r of
        Inl e \<Rightarrow> Inl e
      | Inr x \<Rightarrow> (case sequence_res rs of Inl e \<Rightarrow> Inl e | Inr xs \<Rightarrow> Inr (x # xs)))"

subsection \<open>Tensor primitives of the host framework\<close>

text \<open>
  \<^verbatim>\<open>torch.unbind(t, 0)\<close> removes the first dimension and returns the slices along
  it; a tensor without dimensions has no dimension 0 and is rejected. \<open>chunks n p xs\<close>
  cuts the first \<open>n\<close> blocks of \<open>p\<close> elements off \<open>xs\<close>.
\<close>

fun chunks :: "nat \<Rightarrow> nat \<Rightarrow> 'a list \<Rightarrow> 'a list list" where
  "chunks 0 p xs = []"
| "chunks (Suc n) p xs = take p xs # chunks n p (drop p xs)"

definition unbind0 :: "'a tensor \<Rightarrow> 'a tensor list result" where
  "unbind0 t =
     (case shape t of
        [] \<Rightarrow> Inl TorchError
      | n # rest \<Rightarrow> Inr (map (Tensor rest) (chunks n (prod_list rest) (data t))))"

text \<open>\<^verbatim>\<open>t[i]\<close>: the \<open>i\<close>-th slice of a tensor along dimension 0.\<close>

definition select0 :: "'a tensor \<Rightarrow> nat \<Rightarrow> 'a tensor" where
  "select0 t i =
     Tensor (tl (shape t))
       (take (prod_list (tl (shape t))) (drop (i * prod_list (tl (shape t))) (data t)))"

text \<open>
  \<^verbatim>\<open>torch.stack(ts)\<close> joins tensors of one shape along a new first dimension; it
  rejects an empty list and tensors of different shapes.
\<close>

definition stack0 :: "'a tensor list \<Rightarrow> 'a tensor result" where
  "stack0 ts =
     (case ts of
        [] \<Rightarrow> Inl TorchError
      | t # _ \<Rightarrow>
          if list_all (\<lambda>u. shape u = shape t) ts
          then Inr (Tensor (length ts # shape t) (concat (map data ts)))
          else Inl TorchError)"

text \<open>Every tensor holds as many elements as its shape says.\<close>

definition wf_tensor :: "'a tensor \<Rightarrow> bool" where
  "wf_tensor t \<longleftrightarrow> length (data t) = prod_list (shape t)"

subsection \<open>Python built-ins used by the pipeline\<close>

definition key_val :: "pykey \<Rightarrow> 'a pyval" where
  "key_val k = (case k of KStr s \<Rightarrow> PStr s | KInt i \<Rightarrow> PInt i)"

text \<open>
  \<^verbatim>\<open>iter(v)\<close>, run to the end. A tensor iterates over its slices along dimension 0
  (and refuses when it has no dimension), a mapping over its keys, a string over its
  characters; \<^verbatim>\<open>int\<close> and \<^verbatim>\<open>None\<close> are not iterable.
\<close>

fun py_iter :: "'a pyval \<Rightarrow> 'a pyval list result" where
  "py_iter (PTensor t) =
     (case shape t of [] \<Rightarrow> Inl TypeError | _ # _ \<Rightarrow> map_sum id (map PTensor) (unbind0 t))"
| "py_iter (PMapping bt kvs) = Inr (map (key_val \<circ> fst) kvs)"
| "py_iter (PNamedTuple nm xs) = Inr xs"
| "py_iter (PTuple xs) = Inr xs"
| "py_iter (PList xs) = Inr xs"
| "py_iter (PStr s) = Inr (map (\<lambda>c. PStr [c]) s)"
| "py_iter (PInt i) = Inl TypeError"
| "py_iter PNone = Inl TypeError"

text \<open>
  \<^verbatim>\<open>zip(*vs)\<close>: every argument is turned into an iterator first, then the \<open>i\<close>-th
  tuple collects the \<open>i\<close>-th item of each, until the shortest argument is exhausted.
  Without arguments there is no tuple at all.
\<close>

fun min_length :: "'b list list \<Rightarrow> nat" where
  "min_length [] = 0"
| "min_length [xs] = length xs"
| "min_length (xs # ys # xss) = min (length xs) (min_length (ys # xss))"

definition transpose_min :: "'b list list \<Rightarrow> 'b list list" where
  "transpose_min xss = map (\<lambda>i. map (\<lambda>xs. xs ! i) xss) [0..<min_length xss]"

definition py_zip :: "'a pyval list \<Rightarrow> 'a pyval list list result" where
  "py_zip vs =
     (case sequence_res (map py_iter vs) of
        Inl e \<Rightarrow> Inl e
      | Inr its \<Rightarrow> Inr (transpose_min its))"

text \<open>
  \<^verbatim>\<open>dict(pairs)\<close>: items are inserted in order; a key seen again keeps its place and
  takes the later value.
\<close>

definition py_dict :: "(pykey \<times> 'v) list \<Rightarrow> (pykey \<times> 'v) list" where
  "py_dict kvs = fold (\<lambda>(k, v). AList.update k v) kvs []"

text \<open>Calling a namedtuple class with positional arguments: one per field.\<close>

definition namedtuple_new :: "string \<Rightarrow> nat \<Rightarrow> 'a pyval list \<Rightarrow> 'a pyval result" where
  "namedtuple_new nm arity args =
     (if length args = arity then Inr (PNamedTuple nm args) else Inl TypeError)"

section \<open>\<^verbatim>\<open>default_uncollate\<close>\<close>

text \<open>A size that iteration never increases and that a tensor slice decreases.\<close>

fun pysize :: "'a pyval \<Rightarrow> nat" where
  "pysize (PTensor t) = length (shape t)"
| "pysize (PMapping bt kvs) = 2 + sum_list (map (\<lambda>kv. pysize (snd kv)) kvs)"
| "pysize (PNamedTuple nm xs) = 2 + sum_list (map pysize xs)"
| "pysize (PTuple xs) = 1 + sum_list (map pysize xs)"
| "pysize (PList xs) = 1 + sum_list (map pysize xs)"
| "pysize (PStr s) = 0"
| "pysize (PInt i) = 0"
| "pysize PNone = 0"

lemma sequence_res_Inr:
  "sequence_res (map f xs) = Inr ys \<Longrightarrow> list_all2 (\<lambda>x y. f x = Inr y) xs ys"
  by (induction xs arbitrary: ys) (auto split: sum.splits)

lemma min_length_le: "xs \<in> set xss \<Longrightarrow> min_length xss \<le> length xs"
  by (induction xss rule: min_length.induct) auto

lemma chunks_length [simp]: "length (chunks n p xs) = n"
  by (induction n arbitrary: xs) auto

lemma pysize_member: "x \<in> set xs \<Longrightarrow> pysize x \<le> sum_list (map pysize xs)"
  by (induction xs) auto

lemma py_iter_size:
  "py_iter v = Inr it \<Longrightarrow> x \<in> set it \<Longrightarrow> pysize x \<le> pysize v"
proof (cases v)
  case (PTensor t)
  assume "py_iter v = Inr it" "x \<in> set it"
  with PTensor show ?thesis
    by (auto simp: unbind0_def split: list.splits)
next
  case (PMapping bt kvs)
  assume "py_iter v = Inr it" "x \<in> set it"
  with PMapping show ?thesis by (auto simp: key_val_def split: pykey.splits)
next
  case (PNamedTuple nm xs)
  assume "py_iter v = Inr it" "x \<in> set it"
  with PNamedTuple show ?thesis by (auto dest: pysize_member)
next
  case (PTuple xs)
  assume "py_iter v = Inr it" "x \<in> set it"
  with PTuple show ?thesis by (auto dest: pysize_member)
next
  case (PList xs)
  assume "py_iter v = Inr it" "x \<in> set it"
  with PList show ?thesis by (auto dest: pysize_member)
next
  case (PStr s)
  assume "py_iter v = Inr it" "x \<in> set it"
  with PStr show ?thesis by auto
qed auto

lemma row_size:
  "list_all2 (\<lambda>v it. py_iter v = Inr it) vs its \<Longrightarrow> \<forall>it \<in> set its. i < length it \<Longrightarrow>
   sum_list (map pysize (map (\<lambda>xs. xs ! i) its)) \<le> sum_list (map pysize vs)"
proof (induction vs its rule: list_all2_induct)
  case Nil
  then show ?case by simp
next
  case (Cons v vs it its)
  have "pysize (it ! i) \<le> pysize v"
    using Cons.hyps(1) Cons.prems by (auto intro: py_iter_size)
  with Cons show ?case by auto
qed

lemma py_zip_size:
  assumes "py_zip vs = Inr rows" "row \<in> set rows"
  shows "sum_list (map pysize row) \<le> sum_list (map pysize vs)"
proof -
  from assms obtain its where its: "sequence_res (map py_iter vs) = Inr its"
    and rows: "rows = transpose_min its"
    by (auto simp: py_zip_def split: sum.splits)
  from assms(2) rows obtain i where i: "i < min_length its" and row: "row = map (\<lambda>xs. xs ! i) its"
    by (auto simp: transpose_min_def)
  have "\<forall>it \<in> set its. i < length it"
    using i min_length_le by fastforce
  with sequence_res_Inr[OF its] show ?thesis
    unfolding row by (rule row_size)
qed

text \<open>
  The function follows the source branch by branch. In the mapping branch
  \<^verbatim>\<open>zip(*batch.values())\<close> yields one tuple per sample, the recursive call on that
  tuple takes the sequence branch, \<^verbatim>\<open>zip(batch, ...)\<close> pairs the keys with the
  result, and \<^verbatim>\<open>batch_type(dict(...))\<close> rebuilds a mapping of the batch's class. In
  the namedtuple branch the result of the recursive call is unpacked into the arguments
  of the batch's class. The sequence branch always builds a list.
\<close>

function default_uncollate :: "'a pyval \<Rightarrow> 'a pyval result" where
  "default_uncollate (PTensor t) =
     (case unbind0 t of Inl e \<Rightarrow> Inl e | Inr ts \<Rightarrow> Inr (PList (map PTensor ts)))"
| "default_uncollate (PMapping bt kvs) =
     (case py_zip (map snd kvs) of
        Inl e \<Rightarrow> Inl e
      | Inr rows \<Rightarrow>
          map_sum id PList (sequence_res (map
            (\<lambda>t. case default_uncollate (PTuple t) of
                   Inl e \<Rightarrow> Inl e
                 | Inr u \<Rightarrow>
                     (case py_iter u of
                        Inl e \<Rightarrow> Inl e
                      | Inr us \<Rightarrow> Inr (PMapping bt (py_dict (zip (map fst kvs) us)))))
            rows)))"
| "default_uncollate (PNamedTuple nm xs) =
     (case py_zip xs of
        Inl e \<Rightarrow> Inl e
      | Inr rows \<Rightarrow>
          map_sum id PList (sequence_res (map
            (\<lambda>sample. case default_uncollate (PTuple sample) of
                   Inl e \<Rightarrow> Inl e
                 | Inr u \<Rightarrow>
                     (case py_iter u of
                        Inl e \<Rightarrow> Inl e
                      | Inr us \<Rightarrow> namedtuple_new nm (length xs) us))
            rows)))"
| "default_uncollate (PTuple xs) = map_sum id PList (sequence_res (map default_uncollate xs))"
| "default_uncollate (PList xs) = map_sum id PList (sequence_res (map default_uncollate xs))"
| "default_uncollate (PStr s) = Inr (PStr s)"
| "default_uncollate (PInt i) = Inr (PInt i)"
| "default_uncollate PNone = Inr PNone"
  by pat_completeness auto
termination
proof (relation "measure pysize")
  show "wf (measure pysize)" by simp
next
  fix bt :: mapping_type and kvs :: "(pykey \<times> 'a pyval) list" and rows t
  assume "py_zip (map snd kvs) = Inr rows" "t \<in> set rows"
  then have "sum_list (map pysize t) \<le> sum_list (map pysize (map snd kvs))"
    by (rule py_zip_size)
  then show "(PTuple t, PMapping bt kvs) \<in> measure pysize"
    by (simp add: comp_def)
next
  fix nm :: string and xs :: "'a pyval list" and rows sample
  assume "py_zip xs = Inr rows" "sample \<in> set rows"
  then have "sum_list (map pysize sample) \<le> sum_list (map pysize xs)"
    by (rule py_zip_size)
  then show "(PTuple sample, PNamedTuple nm xs) \<in> measure pysize"
    by simp
next
  fix xs :: "'a pyval list" and x
  assume "x \<in> set xs"
  then show "(x, PTuple xs) \<in> measure pysize"
    by (auto dest: pysize_member simp: less_Suc_eq_le)
next
  fix xs :: "'a pyval list" and x
  assume "x \<in> set xs"
  then show "(x, PList xs) \<in> measure pysize"
    by (auto dest: pysize_member simp: less_Suc_eq_le)
qed

section \<open>Callables and the three processors\<close>

text \<open>
  The transforms are user-supplied callables: they may raise and may have effects. A
  callable is a function from its argument and the state of the world to an outcome and
  the new state, so the order and the number of the calls show in the state.
\<close>

type_synonym ('s, 'r) eff = "'s \<Rightarrow> 'r result \<times> 's"

definition return_eff :: "'r \<Rightarrow> ('s, 'r) eff" where
  "return_eff x = (\<lambda>s. (Inr x, s))"

definition raise_eff :: "pyerror \<Rightarrow> ('s, 'r) eff" where
  "raise_eff e = (\<lambda>s. (Inl e, s))"

definition lift_res :: "'r result \<Rightarrow> ('s, 'r) eff" where
  "lift_res r = (\<lambda>s. (r, s))"

definition bind_eff :: "('s, 'q) eff \<Rightarrow> ('q \<Rightarrow> ('s, 'r) eff) \<Rightarrow> ('s, 'r) eff" where
  "bind_eff m f = (\<lambda>s. case m s of (Inl e, s') \<Rightarrow> (Inl e, s') | (Inr x, s') \<Rightarrow> f x s')"

text \<open>\<^verbatim>\<open>[f(x) for x in xs]\<close> with an effectful \<open>f\<close>: calls from left to right.\<close>

fun for_each :: "('q \<Rightarrow> ('s, 'r) eff) \<Rightarrow> 'q list \<Rightarrow> ('s, 'r list) eff" where
  "for_each f [] = return_eff []"
| "for_each f (x # xs) =
     bind_eff (f x) (\<lambda>y. bind_eff (for_each f xs) (\<lambda>ys. return_eff (y # ys)))"

type_synonym ('s, 'a) callable = "'a pyval \<Rightarrow> ('s, 'a pyval) eff"

text \<open>
  \<^verbatim>\<open>type(u)(xs)\<close> for a list \<open>xs\<close>: the class of \<open>u\<close> called with one argument.
  \<^verbatim>\<open>list\<close> and \<^verbatim>\<open>tuple\<close> copy the items; a namedtuple class takes one
  argument per field; \<^verbatim>\<open>int\<close> and \<^verbatim>\<open>NoneType\<close> reject a list. What
  \<^verbatim>\<open>str\<close>, \<^verbatim>\<open>torch.Tensor\<close> and the mapping classes make of a list is left
  to the parameter \<open>other\<close>.
\<close>

definition py_construct ::
  "('a pyval \<Rightarrow> 'a pyval list \<Rightarrow> 'a pyval result) \<Rightarrow> 'a pyval \<Rightarrow> 'a pyval list \<Rightarrow> 'a pyval result"
where
  "py_construct other u xs =
     (case u of
        PList _ \<Rightarrow> Inr (PList xs)
      | PTuple _ \<Rightarrow> Inr (PTuple xs)
      | PNamedTuple nm fs \<Rightarrow> namedtuple_new nm (length fs) [PList xs]
      | PInt _ \<Rightarrow> Inl TypeError
      | PNone \<Rightarrow> Inl TypeError
      | _ \<Rightarrow> other u xs)"

subsection \<open>\<^verbatim>\<open>_Sequential\<close>\<close>

text \<open>
  The records hold the attributes as \<^verbatim>\<open>__init__\<close> stores them.
  \<^verbatim>\<open>convert_to_modules\<close> (\<^verbatim>\<open>flash/data/utils.py\<close>) wraps a callable in a module
  that calls it; a field is the behaviour of the stored module when called.
  \<^verbatim>\<open>_contains_any_tensor\<close> comes from the same file and is a parameter of
  \<open>Sequential_forward\<close>.
\<close>

record ('s, 'a) Sequential =
  pre_tensor_transform :: "('s, 'a) callable"
  to_tensor_transform :: "('s, 'a) callable"
  post_tensor_transform :: "('s, 'a) callable"
  assert_contains_tensor :: bool

definition Sequential_forward ::
  "('a pyval \<Rightarrow> bool) \<Rightarrow> ('s, 'a) Sequential \<Rightarrow> ('s, 'a) callable"
where
  "Sequential_forward contains_tensor self sample =
     bind_eff (pre_tensor_transform self sample) (\<lambda>sample.
     bind_eff (to_tensor_transform self sample) (\<lambda>sample.
     bind_eff
       (if assert_contains_tensor self
        then (if \<not> contains_tensor sample
              then raise_eff MisconfigurationException
              else return_eff ())
        else return_eff ())
       (\<lambda>_. post_tensor_transform self sample)))"

text \<open>
  Modelled from the spec: \<^verbatim>\<open>_contains_any_tensor\<close> of
  \<^verbatim>\<open>flash/data/utils.py\<close> is not among the sources. Its name and the message of the
  exception it guards (the outputs are expected to be tensors) say what it decides: whether
  the value is a tensor or a container that holds one. The theorems about
  \<open>Sequential_forward\<close> hold for every predicate; this one only serves concrete runs.
\<close>

fun contains_any_tensor :: "'a pyval \<Rightarrow> bool" where
  "contains_any_tensor (PTensor t) = True"
| "contains_any_tensor (PMapping bt kvs) = list_ex (\<lambda>kv. contains_any_tensor (snd kv)) kvs"
| "contains_any_tensor (PNamedTuple nm xs) = list_ex contains_any_tensor xs"
| "contains_any_tensor (PTuple xs) = list_ex contains_any_tensor xs"
| "contains_any_tensor (PList xs) = list_ex contains_any_tensor xs"
| "contains_any_tensor (PStr s) = False"
| "contains_any_tensor (PInt i) = False"
| "contains_any_tensor PNone = False"

subsection \<open>\<^verbatim>\<open>_PreProcessor\<close>\<close>

typedecl RunningStage

record ('s, 'a) PreProcessor =
  collate_fn :: "('s, 'a) callable"
  per_sample_transform :: "('s, 'a) callable"
  per_batch_transform :: "('s, 'a) callable"
  apply_per_sample_transform :: bool
  stage :: "RunningStage option"

text \<open>
  Lines 105 and 106 build a list of the transformed samples and copy it
  (\<^verbatim>\<open>type(samples)\<close> is \<^verbatim>\<open>list\<close> by then), so \<^verbatim>\<open>collate_fn\<close> receives a
  list whatever the class of the argument was.
\<close>

definition PreProcessor_forward :: "('s, 'a) PreProcessor \<Rightarrow> ('s, 'a) callable" where
  "PreProcessor_forward self samples =
     bind_eff
       (if apply_per_sample_transform self
        then
          bind_eff (lift_res (py_iter samples)) (\<lambda>items.
          bind_eff (for_each (per_sample_transform self) items) (\<lambda>samples.
          collate_fn self (PList samples)))
        else return_eff samples)
       (\<lambda>samples. per_batch_transform self samples)"

subsection \<open>\<^verbatim>\<open>_PostProcessor\<close>\<close>

text \<open>
  \<^verbatim>\<open>save_fn\<close> is optional; without it the predictions are returned, with it they are
  saved (one by one when \<^verbatim>\<open>save_per_sample\<close> is set) and \<^verbatim>\<open>forward\<close> returns
  \<^verbatim>\<open>None\<close>.
\<close>

record ('s, 'a) PostProcessor =
  uncollate_fn :: "('s, 'a) callable"
  post_per_batch_transform :: "('s, 'a) callable"
  post_per_sample_transform :: "('s, 'a) callable"
  save_fn :: "('s, 'a) callable option"
  save_per_sample :: bool

definition PostProcessor_forward ::
  "('a pyval \<Rightarrow> 'a pyval list \<Rightarrow> 'a pyval result) \<Rightarrow> ('s, 'a) PostProcessor \<Rightarrow> ('s, 'a) callable"
where
  "PostProcessor_forward other self batch =
     bind_eff (post_per_batch_transform self batch) (\<lambda>transformed.
     bind_eff (uncollate_fn self transformed) (\<lambda>uncollated.
     bind_eff (lift_res (py_iter uncollated)) (\<lambda>samples.
     bind_eff (for_each (post_per_sample_transform self) samples) (\<lambda>preds.
     bind_eff (lift_res (py_construct other uncollated preds)) (\<lambda>final_preds.
       (case save_fn self of
          Some save \<Rightarrow>
            if save_per_sample self
            then
              bind_eff (lift_res (py_iter final_preds)) (\<lambda>ps.
              bind_eff (for_each save ps) (\<lambda>_. return_eff PNone))
            else bind_eff (save final_preds) (\<lambda>_. return_eff PNone)
        | None \<Rightarrow> return_eff final_preds))))))"

section \<open>Vocabulary of the properties\<close>

text \<open>
  The class tests of the source, on the values of the embedding: \<^verbatim>\<open>isinstance\<close>
  against \<^verbatim>\<open>Tensor\<close>, \<^verbatim>\<open>Mapping\<close>, \<^verbatim>\<open>str\<close> and \<^verbatim>\<open>Sequence\<close>, and
  the test for a namedtuple (a tuple with \<^verbatim>\<open>_fields\<close>). Namedtuples and strings are
  sequences too. \<open>same_class u v\<close> is \<^verbatim>\<open>type(u) is type(v)\<close>; two namedtuples are of
  one class when name and number of fields agree.
\<close>

definition is_tensor :: "'a pyval \<Rightarrow> bool" where
  "is_tensor v = (case v of PTensor _ \<Rightarrow> True | _ \<Rightarrow> False)"

definition is_mapping :: "'a pyval \<Rightarrow> bool" where
  "is_mapping v = (case v of PMapping _ _ \<Rightarrow> True | _ \<Rightarrow> False)"

definition is_namedtuple :: "'a pyval \<Rightarrow> bool" where
  "is_namedtuple v = (case v of PNamedTuple _ _ \<Rightarrow> True | _ \<Rightarrow> False)"

definition is_str :: "'a pyval \<Rightarrow> bool" where
  "is_str v = (case v of PStr _ \<Rightarrow> True | _ \<Rightarrow> False)"

definition is_sequence :: "'a pyval \<Rightarrow> bool" where
  "is_sequence v =
     (case v of
        PNamedTuple _ _ \<Rightarrow> True | PTuple _ \<Rightarrow> True | PList _ \<Rightarrow> True | PStr _ \<Rightarrow> True
      | _ \<Rightarrow> False)"

fun same_class :: "'a pyval \<Rightarrow> 'a pyval \<Rightarrow> bool" where
  "same_class (PTensor t) (PTensor u) = True"
| "same_class (PMapping bt kvs) (PMapping bt' kvs') = (bt = bt')"
| "same_class (PNamedTuple nm xs) (PNamedTuple nm' ys) = (nm = nm' \<and> length xs = length ys)"
| "same_class (PTuple xs) (PTuple ys) = True"
| "same_class (PList xs) (PList ys) = True"
| "same_class (PStr s) (PStr s') = True"
| "same_class (PInt i) (PInt j) = True"
| "same_class PNone PNone = True"
| "same_class _ _ = False"

text \<open>
  Stand-ins for concrete runs: a callable that computes \<open>g\<close> and appends its name to a
  call log, a callable that raises a given exception, and constructors for the classes
  left open in \<open>py_construct\<close> that reject every list (the runs below never reach them).
\<close>

definition log_call :: "string \<Rightarrow> ('a pyval \<Rightarrow> 'a pyval) \<Rightarrow> (string list, 'a) callable" where
  "log_call nm g v = (\<lambda>log. (Inr (g v), log @ [nm]))"

definition raising :: "pyerror \<Rightarrow> ('s, 'a) callable" where
  "raising e v = raise_eff e"

definition reject_list :: "'a pyval \<Rightarrow> 'a pyval list \<Rightarrow> 'a pyval result" where
  "reject_list u xs = Inl TypeError"

section \<open>Uncollating tensors\<close>

lemma chunks_nth: "i < n \<Longrightarrow> chunks n p xs ! i = take p (drop (i * p) xs)"
proof (induction n arbitrary: i xs)
  case 0
  then show ?case by simp
next
  case (Suc n)
  show ?case
  proof (cases i)
    case 0
    then show ?thesis by simp
  next
    case (Suc j)
    with Suc.prems have "j < n" by simp
    from Suc.IH[OF this, of "drop p xs"] Suc show ?thesis
      by (simp add: add.commute)
  qed
qed

lemma chunks_concat:
  "\<forall>xs \<in> set xss. length xs = p \<Longrightarrow> chunks (length xss) p (concat xss) = xss"
  by (induction xss) auto

text \<open>
  Claim C3. A tensor batch whose first dimension is \<open>n\<close> is uncollated into a list of
  exactly \<open>n\<close> tensors, and the \<open>i\<close>-th of them is the \<open>i\<close>-th slice of the batch
  along dimension 0.
\<close>

theorem tensor_uncollate_slices:
  assumes "shape t = n # rest"
  shows "\<exists>ts. default_uncollate (PTensor t) = Inr (PList (map PTensor ts))
              \<and> length ts = n \<and> (\<forall>i<n. ts ! i = select0 t i)"
proof -
  let ?ts = "map (Tensor rest) (chunks n (prod_list rest) (data t))"
  have "default_uncollate (PTensor t) = Inr (PList (map PTensor ?ts))"
    using assms by (simp add: unbind0_def)
  moreover have "length ?ts = n" by simp
  moreover have "\<forall>i<n. ?ts ! i = select0 t i"
    using assms by (simp add: select0_def chunks_nth)
  ultimately show ?thesis by blast
qed

theorem tensor_uncollate_slices_witness:
  "default_uncollate (PTensor (Tensor [2, 2] [1, 2, 3, 4 :: int]))
     = Inr (PList [PTensor (Tensor [2] [1, 2]), PTensor (Tensor [2] [3, 4])])
   \<and> select0 (Tensor [2, 2] [1, 2, 3, 4 :: int]) 1 = Tensor [2] [3, 4]"
proof -
  have sh: "shape (Tensor [2, 2] [1, 2, 3, 4 :: int]) = 2 # [2]" by simp
  from tensor_uncollate_slices[OF sh] obtain ts where
    ts: "default_uncollate (PTensor (Tensor [2, 2] [1, 2, 3, 4 :: int])) = Inr (PList (map PTensor ts))"
    and len: "length ts = 2" and sl: "\<forall>i<2. ts ! i = select0 (Tensor [2, 2] [1, 2, 3, 4 :: int]) i"
    by blast
  have s0: "select0 (Tensor [2, 2] [1, 2, 3, 4 :: int]) 0 = Tensor [2] [1, 2]"
    and s1: "select0 (Tensor [2, 2] [1, 2, 3, 4 :: int]) 1 = Tensor [2] [3, 4]"
    by (simp_all add: select0_def)
  from len obtain a b where ab: "ts = [a, b]"
    by (cases ts; cases "tl ts"; cases "tl (tl ts)") auto
  from sl have "ts ! 0 = select0 (Tensor [2, 2] [1, 2, 3, 4 :: int]) 0"
    and "ts ! 1 = select0 (Tensor [2, 2] [1, 2, 3, 4 :: int]) 1" by simp_all
  with ab s0 s1 have "ts = [Tensor [2] [1, 2], Tensor [2] [3, 4]]" by simp
  with ts s1 show ?thesis by simp
qed

text \<open>
  Claim C1. Stacking a non-empty list of tensors of one shape along a new first dimension
  and uncollating the batch gives back the list of the original tensors, in order:
  \<^verbatim>\<open>default_uncollate\<close> is a left inverse of tensor collation.
\<close>

theorem uncollate_stack:
  assumes "ts \<noteq> []"
    and "\<forall>t \<in> set ts. shape t = shape (hd ts)"
    and "\<forall>t \<in> set ts. wf_tensor t"
  shows "\<exists>b. stack0 ts = Inr b \<and> default_uncollate (PTensor b) = Inr (PList (map PTensor ts))"
proof -
  let ?sh = "shape (hd ts)"
  let ?b = "Tensor (length ts # ?sh) (concat (map data ts))"
  have st: "stack0 ts = Inr ?b"
    using assms(1,2) by (cases ts) (auto simp: stack0_def list_all_iff)
  have "\<forall>xs \<in> set (map data ts). length xs = prod_list ?sh"
    using assms(2,3) by (auto simp: wf_tensor_def)
  then have "chunks (length (map data ts)) (prod_list ?sh) (concat (map data ts)) = map data ts"
    by (rule chunks_concat)
  then have ch: "chunks (length ts) (prod_list ?sh) (concat (map data ts)) = map data ts"
    by simp
  have "\<forall>t \<in> set ts. Tensor ?sh (data t) = t"
    using assms(2) by (metis tensor.collapse)
  then have "map (Tensor ?sh) (map data ts) = ts"
    by (simp add: map_idI)
  with ch have "default_uncollate (PTensor ?b) = Inr (PList (map PTensor ts))"
    by (simp add: unbind0_def)
  with st show ?thesis by blast
qed

theorem uncollate_stack_witness:
  "[Tensor [2] [1, 2], Tensor [2] [3, 4 :: int]] \<noteq> []
   \<and> stack0 [Tensor [2] [1, 2], Tensor [2] [3, 4 :: int]] = Inr (Tensor [2, 2] [1, 2, 3, 4])
   \<and> default_uncollate (PTensor (Tensor [2, 2] [1, 2, 3, 4 :: int]))
       = Inr (PList [PTensor (Tensor [2] [1, 2]), PTensor (Tensor [2] [3, 4])])"
proof -
  let ?ts = "[Tensor [2] [1, 2], Tensor [2] [3, 4 :: int]]"
  have st: "stack0 ?ts = Inr (Tensor [2, 2] [1, 2, 3, 4])"
    by (simp add: stack0_def)
  from uncollate_stack[of ?ts] obtain b where
    "stack0 ?ts = Inr b" "default_uncollate (PTensor b) = Inr (PList (map PTensor ?ts))"
    by (auto simp: wf_tensor_def)
  with st show ?thesis by simp
qed

section \<open>Uncollating containers\<close>

text \<open>
  Claim C10. \<^verbatim>\<open>default_uncollate\<close> returns its argument unchanged whenever the batch
  is neither a tensor, a mapping, a namedtuple nor a non-string sequence; in particular a
  string is returned as it is and not split into characters.
\<close>

theorem uncollate_other_unchanged:
  "(\<not> is_tensor b \<and> \<not> is_mapping b \<and> \<not> is_namedtuple b \<and> \<not> (is_sequence b \<and> \<not> is_str b)
      \<longrightarrow> default_uncollate b = Inr b)
   \<and> default_uncollate (PStr s) = Inr (PStr s)"
  by (cases b) (simp_all add: is_tensor_def is_mapping_def is_namedtuple_def is_sequence_def is_str_def)

theorem uncollate_other_unchanged_witness:
  "\<not> is_tensor (PInt 3 :: int pyval) \<and> \<not> is_mapping (PInt 3 :: int pyval)
   \<and> \<not> is_namedtuple (PInt 3 :: int pyval)
   \<and> \<not> (is_sequence (PInt 3 :: int pyval) \<and> \<not> is_str (PInt 3 :: int pyval))
   \<and> default_uncollate (PInt 3 :: int pyval) = Inr (PInt 3)
   \<and> default_uncollate (PStr ''ab'' :: int pyval) = Inr (PStr ''ab'')"
  using uncollate_other_unchanged[of "PInt 3 :: int pyval" "''ab''"]
  by (simp add: is_tensor_def is_mapping_def is_namedtuple_def is_sequence_def is_str_def)

lemma sequence_res_map_Inr:
  "sequence_res (map f xs) = Inr ys \<Longrightarrow> length ys = length xs \<and> (\<forall>i<length xs. f (xs ! i) = Inr (ys ! i))"
  using sequence_res_Inr[of f xs ys] by (auto simp: list_all2_conv_all_nth)

lemma uncollate_sequence_list:
  "default_uncollate (PTuple xs) = Inr r \<Longrightarrow> \<exists>ys. r = PList ys \<and> length ys = length xs"
  "default_uncollate (PList xs) = Inr r \<Longrightarrow> \<exists>ys. r = PList ys \<and> length ys = length xs"
  by (auto simp: map_sum_def split: sum.splits dest: sequence_res_map_Inr)

lemma mapping_sample_class:
  "(case d of
      Inl e \<Rightarrow> Inl e
    | Inr u \<Rightarrow> (case py_iter u of Inl e \<Rightarrow> Inl e | Inr us \<Rightarrow> Inr (PMapping bt (g us)))) = Inr y
   \<Longrightarrow> same_class y (PMapping bt kvs)"
  by (auto split: sum.splits)

lemma namedtuple_sample_class:
  "(case d of
      Inl e \<Rightarrow> Inl e
    | Inr u \<Rightarrow> (case py_iter u of Inl e \<Rightarrow> Inl e | Inr us \<Rightarrow> namedtuple_new nm (length xs) us)) = Inr y
   \<Longrightarrow> same_class y (PNamedTuple nm xs)"
  by (auto simp: namedtuple_new_def split: sum.splits if_splits)

lemma sequence_res_all:
  assumes "sequence_res (map f xs) = Inr ys" and "\<And>x y. f x = Inr y \<Longrightarrow> P y"
  shows "\<forall>y \<in> set ys. P y"
proof
  fix y assume "y \<in> set ys"
  then obtain i where "i < length ys" "y = ys ! i"
    by (auto simp: in_set_conv_nth)
  with sequence_res_map_Inr[OF assms(1)] have "f (xs ! i) = Inr y" by simp
  then show "P y" by (rule assms(2))
qed

text \<open>
  Claim C4, as amended. The unpacking keeps the class of mapping and namedtuple batches:
  every sample returned for a mapping batch is a mapping of the batch's class, every
  sample returned for a namedtuple batch is a namedtuple of the batch's class. For any
  other non-string sequence batch the result is a list with one entry per element of the
  batch, whatever the sequence class of the batch.
\<close>

theorem uncollate_class:
  "(default_uncollate (PMapping bt kvs) = Inr r1 \<longrightarrow>
      (\<exists>samples. r1 = PList samples \<and> (\<forall>s \<in> set samples. same_class s (PMapping bt kvs))))
   \<and> (default_uncollate (PNamedTuple nm fs) = Inr r2 \<longrightarrow>
      (\<exists>samples. r2 = PList samples \<and> (\<forall>s \<in> set samples. same_class s (PNamedTuple nm fs))))
   \<and> ((b = PTuple xs \<or> b = PList xs) \<and> default_uncollate b = Inr r3 \<longrightarrow>
      (\<exists>ys. r3 = PList ys \<and> length ys = length xs))"
proof (intro conjI impI)
  assume "default_uncollate (PMapping bt kvs) = Inr r1"
  then obtain rows samples where
    s: "sequence_res (map
            (\<lambda>t. case default_uncollate (PTuple t) of
                   Inl e \<Rightarrow> Inl e
                 | Inr u \<Rightarrow>
                     (case py_iter u of
                        Inl e \<Rightarrow> Inl e
                      | Inr us \<Rightarrow> Inr (PMapping bt (py_dict (zip (map fst kvs) us)))))
            rows) = Inr samples" and r: "r1 = PList samples"
    by (auto simp: map_sum_def split: sum.splits)
  from s have "\<forall>s \<in> set samples. same_class s (PMapping bt kvs)"
    by (rule sequence_res_all) (rule mapping_sample_class)
  with r show "\<exists>samples. r1 = PList samples \<and> (\<forall>s \<in> set samples. same_class s (PMapping bt kvs))"
    by blast
next
  assume "default_uncollate (PNamedTuple nm fs) = Inr r2"
  then obtain rows samples where
    s: "sequence_res (map
            (\<lambda>sample. case default_uncollate (PTuple sample) of
                   Inl e \<Rightarrow> Inl e
                 | Inr u \<Rightarrow>
                     (case py_iter u of
                        Inl e \<Rightarrow> Inl e
                      | Inr us \<Rightarrow> namedtuple_new nm (length fs) us))
            rows) = Inr samples" and r: "r2 = PList samples"
    by (auto simp: map_sum_def split: sum.splits)
  from s have "\<forall>s \<in> set samples. same_class s (PNamedTuple nm fs)"
    by (rule sequence_res_all) (rule namedtuple_sample_class)
  with r show "\<exists>samples. r2 = PList samples \<and> (\<forall>s \<in> set samples. same_class s (PNamedTuple nm fs))"
    by blast
next
  assume "(b = PTuple xs \<or> b = PList xs) \<and> default_uncollate b = Inr r3"
  then show "\<exists>ys. r3 = PList ys \<and> length ys = length xs"
    using uncollate_sequence_list by blast
qed

theorem uncollate_class_witness:
  "default_uncollate (PMapping OrderedDict [(KStr ''x'', PTensor (Tensor [2, 1] [5, 6 :: int]))])
     = Inr (PList [PMapping OrderedDict [(KStr ''x'', PList [PTensor (Tensor [] [5])])],
                   PMapping OrderedDict [(KStr ''x'', PList [PTensor (Tensor [] [6])])]])
   \<and> same_class (PMapping OrderedDict [(KStr ''x'', PList [PTensor (Tensor [] [6 :: int])])])
        (PMapping OrderedDict [(KStr ''x'', PTensor (Tensor [2, 1] [5, 6]))])
   \<and> default_uncollate (PNamedTuple ''Pair''
          [PTensor (Tensor [2, 1] [5, 6 :: int]), PTensor (Tensor [2, 1] [7, 8])])
     = Inr (PList [PNamedTuple ''Pair'' [PList [PTensor (Tensor [] [5])], PList [PTensor (Tensor [] [7])]],
                   PNamedTuple ''Pair'' [PList [PTensor (Tensor [] [6])], PList [PTensor (Tensor [] [8])]]])
   \<and> same_class (PNamedTuple ''Pair'' [PList [PTensor (Tensor [] [6 :: int])], PList [PTensor (Tensor [] [8])]])
        (PNamedTuple ''Pair'' [PTensor (Tensor [2, 1] [5, 6]), PTensor (Tensor [2, 1] [7, 8])])
   \<and> default_uncollate (PList [PTensor (Tensor [1] [5 :: int]), PTensor (Tensor [1] [6])])
     = Inr (PList [PList [PTensor (Tensor [] [5])], PList [PTensor (Tensor [] [6])]])"
proof -
  let ?m = "[(KStr ''x'', PTensor (Tensor [2, 1] [5, 6 :: int]))]"
  let ?r1 = "PList [PMapping OrderedDict [(KStr ''x'', PList [PTensor (Tensor [] [5 :: int])])],
                    PMapping OrderedDict [(KStr ''x'', PList [PTensor (Tensor [] [6])])]]"
  let ?fs = "[PTensor (Tensor [2, 1] [5, 6 :: int]), PTensor (Tensor [2, 1] [7, 8])]"
  let ?r2 = "PList [PNamedTuple ''Pair'' [PList [PTensor (Tensor [] [5 :: int])], PList [PTensor (Tensor [] [7])]],
                    PNamedTuple ''Pair'' [PList [PTensor (Tensor [] [6])], PList [PTensor (Tensor [] [8])]]]"
  let ?xs = "[PTensor (Tensor [1] [5 :: int]), PTensor (Tensor [1] [6])]"
  let ?r3 = "PList [PList [PTensor (Tensor [] [5 :: int])], PList [PTensor (Tensor [] [6])]]"
  have e1: "default_uncollate (PMapping OrderedDict ?m) = Inr ?r1" by code_simp
  have e2: "default_uncollate (PNamedTuple ''Pair'' ?fs) = Inr ?r2" by code_simp
  have e3: "default_uncollate (PList ?xs) = Inr ?r3" by code_simp
  from uncollate_class[where bt = OrderedDict and kvs = ?m and ?r1.0 = ?r1 and nm = "''Pair''"
      and fs = ?fs and ?r2.0 = ?r2 and b = "PList ?xs" and xs = ?xs and ?r3.0 = ?r3] e1 e2 e3
  show ?thesis by simp
qed

text \<open>
  The claim as stated also promises the batch's class for plain sequences: a tuple of
  tensors is uncollated into a list, not a tuple.
\<close>

theorem tuple_batch_uncollates_to_list:
  "default_uncollate (PTuple [PTensor (Tensor [1] [5 :: int]), PTensor (Tensor [1] [6])])
     = Inr (PList [PList [PTensor (Tensor [] [5])], PList [PTensor (Tensor [] [6])]])
   \<and> \<not> same_class (PList [PList [PTensor (Tensor [] [5 :: int])], PList [PTensor (Tensor [] [6])]])
          (PTuple [PTensor (Tensor [1] [5]), PTensor (Tensor [1] [6])])"
  by code_simp

text \<open>
  Claim C2. For a mapping whose values are tensors with first dimension \<open>n\<close> the claim
  expects \<open>n\<close> mappings, the \<open>i\<close>-th sending each key to the \<open>i\<close>-th slice of its
  tensor. The mapping branch uncollates each tuple of slices once more: a mapping of
  vectors raises, because the slices of a vector have no dimension left to unbind, and
  a mapping of matrices sends each key to the list of the scalars of its row instead of
  the row.
\<close>

theorem mapping_of_tensors_resplit:
  "default_uncollate (PMapping Dict [(KStr ''y'', PTensor (Tensor [2] [1, 2 :: int]))])
     = Inl TorchError
   \<and> default_uncollate (PMapping Dict [(KStr ''x'', PTensor (Tensor [2, 2] [1, 2, 3, 4 :: int]))])
     = Inr (PList [PMapping Dict [(KStr ''x'', PList [PTensor (Tensor [] [1]), PTensor (Tensor [] [2])])],
                   PMapping Dict [(KStr ''x'', PList [PTensor (Tensor [] [3]), PTensor (Tensor [] [4])])]])
   \<and> select0 (Tensor [2, 2] [1, 2, 3, 4 :: int]) 0 = Tensor [2] [1, 2]
   \<and> select0 (Tensor [2] [1, 2 :: int]) 0 = Tensor [] [1]"
  by code_simp

section \<open>The processors\<close>

text \<open>
  \<open>for_each\<close> applies the callable to every item, from left to right: if the call on
  the \<open>i\<close>-th item, started in the \<open>i\<close>-th state of a chain, returns the \<open>i\<close>-th
  result and leaves the next state of the chain, the comprehension returns exactly these
  results and ends in the last state.
\<close>

lemma for_each_states:
  assumes "length ys = length xs" and "length ss = Suc (length xs)"
    and "\<forall>i<length xs. f (xs ! i) (ss ! i) = (Inr (ys ! i), ss ! Suc i)"
  shows "for_each f xs (ss ! 0) = (Inr ys, ss ! length xs)"
  using assms
proof (induction xs arbitrary: ys ss)
  case Nil
  then show ?case by (simp add: return_eff_def)
next
  case (Cons x xs)
  from Cons.prems(1) obtain y ys' where ys: "ys = y # ys'" and ly: "length ys' = length xs"
    by (cases ys) auto
  from Cons.prems(2) obtain s ss' where ss: "ss = s # ss'" and ls: "length ss' = Suc (length xs)"
    by (cases ss) auto
  from Cons.prems(3) have hd: "f x s = (Inr y, ss' ! 0)"
    unfolding ys ss by (auto dest: spec[of _ 0])
  have "\<forall>i<length xs. f (xs ! i) (ss' ! i) = (Inr (ys' ! i), ss' ! Suc i)"
  proof (intro allI impI)
    fix i assume "i < length xs"
    then have "Suc i < length (x # xs)" by simp
    with Cons.prems(3) have "f ((x # xs) ! Suc i) (ss ! Suc i) = (Inr (ys ! Suc i), ss ! Suc (Suc i))"
      by blast
    then show "f (xs ! i) (ss' ! i) = (Inr (ys' ! i), ss' ! Suc i)"
      unfolding ys ss by simp
  qed
  from Cons.IH[OF ly ls this] have "for_each f xs (ss' ! 0) = (Inr ys', ss' ! length xs)" .
  with hd show ?case
    unfolding ys ss by (simp add: bind_eff_def return_eff_def)
qed

text \<open>
  Claim C5, as amended. When \<^verbatim>\<open>assert_contains_tensor\<close> is false, or the value that
  \<^verbatim>\<open>to_tensor_transform\<close> produces contains a tensor, \<^verbatim>\<open>_Sequential.forward\<close>
  returns \<^verbatim>\<open>post_tensor_transform(to_tensor_transform(pre_tensor_transform(sample)))\<close>:
  the three transforms run once each, in that order, each in the state its predecessor
  left.
\<close>

theorem sequential_forward_composes:
  assumes "pre_tensor_transform self sample s0 = (Inr a, s1)"
    and "to_tensor_transform self a s1 = (Inr b, s2)"
    and "\<not> assert_contains_tensor self \<or> contains_tensor b"
  shows "Sequential_forward contains_tensor self sample s0 = post_tensor_transform self b s2"
  using assms by (auto simp: Sequential_forward_def bind_eff_def return_eff_def)

theorem sequential_forward_composes_witness:
  "Sequential_forward contains_any_tensor
     \<lparr>pre_tensor_transform = log_call ''pre'' (\<lambda>v. PList [v]),
      to_tensor_transform = log_call ''to'' (\<lambda>v. PTuple [v, PTensor (Tensor [] [0 :: int])]),
      post_tensor_transform = log_call ''post'' (\<lambda>v. PList [v, PNone]),
      assert_contains_tensor = True\<rparr> (PInt 7) []
   = (Inr (PList [PTuple [PList [PInt 7], PTensor (Tensor [] [0])], PNone]), [''pre'', ''to'', ''post''])"
proof -
  let ?S = "\<lparr>pre_tensor_transform = log_call ''pre'' (\<lambda>v. PList [v]),
      to_tensor_transform = log_call ''to'' (\<lambda>v. PTuple [v, PTensor (Tensor [] [0 :: int])]),
      post_tensor_transform = log_call ''post'' (\<lambda>v. PList [v, PNone]),
      assert_contains_tensor = True\<rparr>"
  have 1: "pre_tensor_transform ?S (PInt 7) [] = (Inr (PList [PInt 7]), [''pre''])"
    by (simp add: log_call_def)
  have 2: "to_tensor_transform ?S (PList [PInt 7]) [''pre'']
      = (Inr (PTuple [PList [PInt 7], PTensor (Tensor [] [0])]), [''pre'', ''to''])"
    by (simp add: log_call_def)
  have 3: "\<not> assert_contains_tensor ?S
      \<or> contains_any_tensor (PTuple [PList [PInt 7], PTensor (Tensor [] [0 :: int])])"
    by simp
  from sequential_forward_composes[where contains_tensor = contains_any_tensor, OF 1 2 3] show ?thesis
    by (simp add: log_call_def)
qed

text \<open>
  The claim as stated speaks of every sample. With \<^verbatim>\<open>assert_contains_tensor\<close> set and
  three transforms that return their argument, the sample \<^verbatim>\<open>3\<close> makes \<^verbatim>\<open>forward\<close>
  raise, while the composition of the transforms returns \<^verbatim>\<open>3\<close>.
\<close>

theorem sequential_forward_guard_counterexample:
  "Sequential_forward contains_any_tensor
     \<lparr>pre_tensor_transform = return_eff, to_tensor_transform = return_eff,
      post_tensor_transform = return_eff, assert_contains_tensor = True\<rparr>
     (PInt 3 :: int pyval) ()
   = (Inl MisconfigurationException, ())
   \<and> bind_eff (return_eff (PInt 3 :: int pyval)) (\<lambda>a. bind_eff (return_eff a) return_eff) ()
   = (Inr (PInt 3), ())"
  by (simp add: Sequential_forward_def bind_eff_def return_eff_def raise_eff_def)

text \<open>
  Claim C8, as amended. Let \<open>b\<close> be the value that
  \<^verbatim>\<open>to_tensor_transform(pre_tensor_transform(sample))\<close> produces. Provided
  \<^verbatim>\<open>post_tensor_transform\<close> does not itself raise \<^verbatim>\<open>MisconfigurationException\<close>
  on \<open>b\<close>, \<^verbatim>\<open>_Sequential.forward\<close> raises \<^verbatim>\<open>MisconfigurationException\<close> if and
  only if \<^verbatim>\<open>assert_contains_tensor\<close> is true and \<open>b\<close> contains no tensor. In that
  case the run ends in the state \<^verbatim>\<open>to_tensor_transform\<close> left, so
  \<^verbatim>\<open>post_tensor_transform\<close> is never applied; and when \<^verbatim>\<open>assert_contains_tensor\<close>
  is false no check is made: the outcome is that of \<^verbatim>\<open>post_tensor_transform\<close> whatever
  \<open>b\<close> contains.
\<close>

theorem sequential_forward_raises:
  assumes "pre_tensor_transform self sample s0 = (Inr a, s1)"
    and "to_tensor_transform self a s1 = (Inr b, s2)"
  shows "Sequential_forward contains_tensor self sample s0
           = (if assert_contains_tensor self \<and> \<not> contains_tensor b
              then (Inl MisconfigurationException, s2)
              else post_tensor_transform self b s2)
         \<and> (fst (post_tensor_transform self b s2) \<noteq> Inl MisconfigurationException \<longrightarrow>
              (fst (Sequential_forward contains_tensor self sample s0) = Inl MisconfigurationException
                 \<longleftrightarrow> assert_contains_tensor self \<and> \<not> contains_tensor b))"
  using assms
  by (auto simp: Sequential_forward_def bind_eff_def return_eff_def raise_eff_def)

theorem sequential_forward_raises_witness:
  "Sequential_forward contains_any_tensor
     \<lparr>pre_tensor_transform = log_call ''pre'' (\<lambda>v. PList [v]),
      to_tensor_transform = log_call ''to'' (\<lambda>v. PTuple [v]),
      post_tensor_transform = log_call ''post'' (\<lambda>v. PList [v, PNone]),
      assert_contains_tensor = True\<rparr> (PInt 7 :: int pyval) []
   = (Inl MisconfigurationException, [''pre'', ''to''])
   \<and> Sequential_forward contains_any_tensor
     \<lparr>pre_tensor_transform = log_call ''pre'' (\<lambda>v. PList [v]),
      to_tensor_transform = log_call ''to'' (\<lambda>v. PTuple [v]),
      post_tensor_transform = log_call ''post'' (\<lambda>v. PList [v, PNone]),
      assert_contains_tensor = False\<rparr> (PInt 7 :: int pyval) []
   = (Inr (PList [PTuple [PList [PInt 7]], PNone]), [''pre'', ''to'', ''post''])"
proof -
  let ?S = "\<lambda>chk. \<lparr>pre_tensor_transform = log_call ''pre'' (\<lambda>v. PList [v]),
      to_tensor_transform = log_call ''to'' (\<lambda>v. PTuple [v]),
      post_tensor_transform = log_call ''post'' (\<lambda>v. PList [v, PNone :: int pyval]),
      assert_contains_tensor = chk\<rparr>"
  have 1: "pre_tensor_transform (?S chk) (PInt 7) [] = (Inr (PList [PInt 7]), [''pre''])" for chk
    by (simp add: log_call_def)
  have 2: "to_tensor_transform (?S chk) (PList [PInt 7]) [''pre'']
      = (Inr (PTuple [PList [PInt 7]]), [''pre'', ''to''])" for chk
    by (simp add: log_call_def)
  from sequential_forward_raises[of "?S True", OF 1 2, of contains_any_tensor]
       sequential_forward_raises[of "?S False", OF 1 2, of contains_any_tensor]
  show ?thesis
    by (simp add: log_call_def)
qed

text \<open>
  The claim as stated has no proviso. With the flag off and a sample that is a tensor, a
  \<^verbatim>\<open>post_tensor_transform\<close> that raises \<^verbatim>\<open>MisconfigurationException\<close> makes
  \<^verbatim>\<open>forward\<close> raise it although neither half of the condition holds.
\<close>

theorem sequential_forward_post_raises_counterexample:
  "Sequential_forward contains_any_tensor
     \<lparr>pre_tensor_transform = return_eff, to_tensor_transform = return_eff,
      post_tensor_transform = raising MisconfigurationException,
      assert_contains_tensor = False\<rparr>
     (PTensor (Tensor [] [0 :: int])) ()
   = (Inl MisconfigurationException, ())
   \<and> contains_any_tensor (PTensor (Tensor [] [0 :: int]))"
  by (simp add: Sequential_forward_def bind_eff_def return_eff_def raise_eff_def raising_def)

text \<open>
  Claim C6. When \<^verbatim>\<open>apply_per_sample_transform\<close> is true, \<^verbatim>\<open>_PreProcessor.forward\<close>
  applies \<^verbatim>\<open>per_sample_transform\<close> to each sample individually, then \<^verbatim>\<open>collate_fn\<close>
  to the list of the transformed samples, then \<^verbatim>\<open>per_batch_transform\<close> to the collated
  batch, in that order, and returns the result. The states \<open>ss\<close> are those between the
  per-sample calls: the call on the \<open>i\<close>-th sample starts in \<open>ss ! i\<close>, returns
  \<open>ys ! i\<close> and leaves \<open>ss ! Suc i\<close>.
\<close>

theorem preprocessor_forward_apply:
  assumes "apply_per_sample_transform self"
    and "py_iter samples = Inr xs"
    and "length ys = length xs" and "length ss = Suc (length xs)"
    and "\<forall>i<length xs.
           per_sample_transform self (xs ! i) (ss ! i) = (Inr (ys ! i), ss ! Suc i)"
    and "collate_fn self (PList ys) (ss ! length xs) = (Inr batch, s2)"
  shows "PreProcessor_forward self samples (ss ! 0) = per_batch_transform self batch s2"
proof -
  have "for_each (per_sample_transform self) xs (ss ! 0) = (Inr ys, ss ! length xs)"
    using assms(3,4,5) by (rule for_each_states)
  with assms(1,2,6) show ?thesis
    by (simp add: PreProcessor_forward_def bind_eff_def lift_res_def)
qed

theorem preprocessor_forward_apply_witness:
  "PreProcessor_forward
     \<lparr>collate_fn = log_call ''collate'' (\<lambda>v. PTuple [v]),
      per_sample_transform = log_call ''sample'' (\<lambda>v. PList [v]),
      per_batch_transform = log_call ''batch'' (\<lambda>v. PList [v, PNone]),
      apply_per_sample_transform = True, stage = None\<rparr>
     (PTuple [PInt 1, PInt 2, PInt 3 :: int pyval]) []
   = (Inr (PList [PTuple [PList [PList [PInt 1], PList [PInt 2], PList [PInt 3]]], PNone]),
      [''sample'', ''sample'', ''sample'', ''collate'', ''batch''])"
proof -
  let ?P = "\<lparr>collate_fn = log_call ''collate'' (\<lambda>v. PTuple [v]),
      per_sample_transform = log_call ''sample'' (\<lambda>v. PList [v]),
      per_batch_transform = log_call ''batch'' (\<lambda>v. PList [v, PNone :: int pyval]),
      apply_per_sample_transform = True, stage = None\<rparr>"
  let ?xs = "[PInt 1, PInt 2, PInt 3 :: int pyval]"
  let ?ys = "[PList [PInt 1], PList [PInt 2], PList [PInt 3 :: int pyval]]"
  let ?ss = "[[], [''sample''], [''sample'', ''sample''], [''sample'', ''sample'', ''sample'']]"
  have 1: "apply_per_sample_transform ?P" by simp
  have 2: "py_iter (PTuple ?xs) = Inr ?xs" by simp
  have 3: "length ?ys = length ?xs" by simp
  have 4: "length ?ss = Suc (length ?xs)" by simp
  have 5: "\<forall>i<length ?xs. per_sample_transform ?P (?xs ! i) (?ss ! i) = (Inr (?ys ! i), ?ss ! Suc i)"
    by (simp add: log_call_def less_Suc_eq)
  have 6: "collate_fn ?P (PList ?ys) (?ss ! length ?xs)
      = (Inr (PTuple [PList ?ys]), [''sample'', ''sample'', ''sample'', ''collate''])"
    by (simp add: log_call_def)
  from preprocessor_forward_apply[OF 1 2 3 4 5 6] show ?thesis
    by (simp add: log_call_def)
qed

text \<open>
  Claim C9. When \<^verbatim>\<open>apply_per_sample_transform\<close> is false, \<^verbatim>\<open>_PreProcessor.forward\<close>
  skips the per-sample transform and \<^verbatim>\<open>collate_fn\<close>: it is
  \<^verbatim>\<open>per_batch_transform\<close> applied to the unmodified input.
\<close>

theorem preprocessor_forward_skip:
  assumes "\<not> apply_per_sample_transform self"
  shows "PreProcessor_forward self samples = per_batch_transform self samples"
  using assms by (simp add: PreProcessor_forward_def bind_eff_def return_eff_def)

theorem preprocessor_forward_skip_witness:
  "PreProcessor_forward
     \<lparr>collate_fn = log_call ''collate'' (\<lambda>v. PTuple [v]),
      per_sample_transform = log_call ''sample'' (\<lambda>v. PList [v]),
      per_batch_transform = log_call ''batch'' (\<lambda>v. PList [v, PNone]),
      apply_per_sample_transform = False, stage = None\<rparr>
     (PTuple [PInt 1, PInt 2 :: int pyval]) []
   = (Inr (PList [PTuple [PInt 1, PInt 2], PNone]), [''batch''])"
proof -
  let ?P = "\<lparr>collate_fn = log_call ''collate'' (\<lambda>v. PTuple [v]),
      per_sample_transform = log_call ''sample'' (\<lambda>v. PList [v]),
      per_batch_transform = log_call ''batch'' (\<lambda>v. PList [v, PNone :: int pyval]),
      apply_per_sample_transform = False, stage = None\<rparr>"
  have 1: "\<not> apply_per_sample_transform ?P" by simp
  from preprocessor_forward_skip[OF 1, of "PTuple [PInt 1, PInt 2]"] show ?thesis
    by (simp add: log_call_def)
qed

text \<open>
  Claim C7, as amended. When \<^verbatim>\<open>save_fn\<close> is \<^verbatim>\<open>None\<close> and the value that
  \<^verbatim>\<open>uncollate_fn\<close> produces is a list or a plain tuple (its class is exactly
  \<^verbatim>\<open>list\<close> or \<^verbatim>\<open>tuple\<close>, not a namedtuple), \<^verbatim>\<open>_PostProcessor.forward\<close>
  applies \<^verbatim>\<open>per_batch_transform\<close> to the batch, then \<^verbatim>\<open>uncollate_fn\<close> to the
  transformed batch, then \<^verbatim>\<open>per_sample_transform\<close> to each resulting sample
  individually, in that order, and returns the transformed samples in a container of the
  class \<^verbatim>\<open>uncollate_fn\<close> produced. The states \<open>ss\<close> are those between the
  per-sample calls.
\<close>

theorem postprocessor_forward_sequence:
  assumes "save_fn self = None"
    and "post_per_batch_transform self batch s0 = (Inr transformed, s1)"
    and "uncollate_fn self transformed s1 = (Inr uncollated, ss ! 0)"
    and "uncollated = PList xs \<or> uncollated = PTuple xs"
    and "length ys = length xs" and "length ss = Suc (length xs)"
    and "\<forall>i<length xs.
           post_per_sample_transform self (xs ! i) (ss ! i) = (Inr (ys ! i), ss ! Suc i)"
  shows "PostProcessor_forward other self batch s0
           = (Inr (case uncollated of PTuple _ \<Rightarrow> PTuple ys | _ \<Rightarrow> PList ys), ss ! length xs)
         \<and> same_class (case uncollated of PTuple _ \<Rightarrow> PTuple ys | _ \<Rightarrow> PList ys) uncollated"
proof -
  have "for_each (post_per_sample_transform self) xs (ss ! 0) = (Inr ys, ss ! length xs)"
    using assms(5,6,7) by (rule for_each_states)
  with assms(1,2,3,4) show ?thesis
    by (auto simp: PostProcessor_forward_def bind_eff_def lift_res_def return_eff_def
          py_construct_def)
qed

theorem postprocessor_forward_sequence_witness:
  "PostProcessor_forward reject_list
     \<lparr>uncollate_fn = log_call ''uncollate'' (\<lambda>v. PTuple [v, PNone, v]),
      post_per_batch_transform = log_call ''batch'' (\<lambda>v. PList [v]),
      post_per_sample_transform = log_call ''sample'' (\<lambda>v. PList [v, PNone]),
      save_fn = None, save_per_sample = False\<rparr>
     (PInt 1 :: int pyval) []
   = (Inr (PTuple [PList [PList [PInt 1], PNone], PList [PNone, PNone], PList [PList [PInt 1], PNone]]),
      [''batch'', ''uncollate'', ''sample'', ''sample'', ''sample''])"
proof -
  let ?P = "\<lparr>uncollate_fn = log_call ''uncollate'' (\<lambda>v. PTuple [v, PNone, v]),
      post_per_batch_transform = log_call ''batch'' (\<lambda>v. PList [v]),
      post_per_sample_transform = log_call ''sample'' (\<lambda>v. PList [v, PNone :: int pyval]),
      save_fn = None, save_per_sample = False\<rparr>"
  let ?xs = "[PList [PInt 1], PNone, PList [PInt 1 :: int pyval]]"
  let ?ys = "[PList [PList [PInt 1], PNone], PList [PNone, PNone], PList [PList [PInt 1 :: int pyval], PNone]]"
  let ?ss = "[[''batch'', ''uncollate''], [''batch'', ''uncollate'', ''sample''],
              [''batch'', ''uncollate'', ''sample'', ''sample''],
              [''batch'', ''uncollate'', ''sample'', ''sample'', ''sample'']]"
  have 1: "save_fn ?P = None" by simp
  have 2: "post_per_batch_transform ?P (PInt 1) [] = (Inr (PList [PInt 1]), [''batch''])"
    by (simp add: log_call_def)
  have 3: "uncollate_fn ?P (PList [PInt 1]) [''batch''] = (Inr (PTuple ?xs), ?ss ! 0)"
    by (simp add: log_call_def)
  have 4: "PTuple ?xs = PList ?xs \<or> PTuple ?xs = PTuple ?xs"
    by simp
  have 5: "length ?ys = length ?xs" by simp
  have 6: "length ?ss = Suc (length ?xs)" by simp
  have 7: "\<forall>i<length ?xs. post_per_sample_transform ?P (?xs ! i) (?ss ! i) = (Inr (?ys ! i), ?ss ! Suc i)"
    by (simp add: log_call_def less_Suc_eq)
  from postprocessor_forward_sequence[OF 1 2 3 4 5 6 7, of reject_list] show ?thesis
    by simp
qed

text \<open>
  The claim as stated covers every container \<^verbatim>\<open>uncollate_fn\<close> may produce. A namedtuple
  with two fields is one that \<^verbatim>\<open>type(uncollated)([...])\<close> cannot rebuild: its class
  takes one argument per field and is called with a single list.
\<close>

theorem postprocessor_forward_namedtuple_counterexample:
  "PostProcessor_forward reject_list
     \<lparr>uncollate_fn = return_eff, post_per_batch_transform = return_eff,
      post_per_sample_transform = return_eff, save_fn = None, save_per_sample = False\<rparr>
     (PNamedTuple ''Point'' [PInt 1, PInt 2 :: int pyval]) ()
   = (Inl TypeError, ())"
  by (simp add: PostProcessor_forward_def bind_eff_def lift_res_def return_eff_def
        py_construct_def namedtuple_new_def)

end
